theory Spec2Isabelle
  imports Main "HOL-Library.Word"
begin

unbundle bit_operations_syntax

section \<open>Bring-up orchestrator of app\_main.cpp\<close>

text \<open>
  The program is one translation unit, \<^verbatim>\<open>src/main/app_main.cpp\<close>. Its functions call the
  ESP-IDF, FreeRTOS, LovyanGFX and LVGL libraries, which are not part of the repository.
  The embedding keeps the functions of the boot, the link-event handler and the two
  loops, and makes the library calls observable: each call is appended to a trace, and
  whatever a library call returns to the program is read from an environment record. The
  two global flags and the event group are fields of the state. The callbacks that
  \<^verbatim>\<open>create_ui\<close> hands to the UI engine (the flush, the focus handler and the status
  bar timer) run inside the engine and are not unfolded. Log lines carry their format
  string; the one non-ASCII letter of a message is written without its accent.
\<close>

subsection \<open>Values exchanged with the libraries\<close>

text \<open>
  \<^verbatim>\<open>esp_err_t\<close>: the three codes the source compares against, and one value standing
  for every other error code.
\<close>

datatype esp_err = ESP_OK | ESP_ERR_NVS_NO_FREE_PAGES | ESP_ERR_NVS_NEW_VERSION_FOUND | ESP_FAIL

text \<open>
  The \<^verbatim>\<open>event_id\<close> argument of the Wi-Fi handler: the three identifiers the handler
  compares against (taken as pairwise different), and one value for every other event,
  since the handler is registered for \<^verbatim>\<open>ESP_EVENT_ANY_ID\<close>.
\<close>

datatype event_id =
  WIFI_EVENT_STA_START | WIFI_EVENT_STA_DISCONNECTED | IP_EVENT_STA_GOT_IP | OTHER_EVENT

text \<open>The library calls the program makes, in the order of their first use in the file.\<close>

datatype call =
    LogI string | LogW string | LogE string
  | Lcd_setConfig | Lcd_init | Esp_restart | Lcd_setBrightness nat
  | Lv string
  | VTaskDelay nat
  | Esp_wifi_connect | XEventGroupSetBits "32 word"
  | Esp_netif_init | Esp_event_loop_create_default | Esp_netif_create_default_wifi_sta
  | Esp_wifi_init | Esp_event_handler_instance_register | Esp_wifi_set_mode
  | Esp_wifi_set_config | Esp_wifi_start | XEventGroupWaitBits "32 word" nat
  | Esp_sntp_setoperatingmode | Esp_sntp_setservername | Esp_sntp_init
  | Esp_bt_controller_init | Esp_bt_controller_enable | Esp_bluedroid_init
  | Esp_bluedroid_enable
  | Esp_vfs_fat_sdmmc_mount
  | Nvs_flash_init | Nvs_flash_erase
  | XEventGroupCreate
  | Esp_timer_create | Esp_timer_start_periodic nat
  | XTaskCreate string nat
  | Esp_task_wdt_init nat | Esp_task_wdt_add | Esp_task_wdt_reset

subsection \<open>Constants of the file\<close>

definition WIFI_CONNECTED_BIT :: "32 word" where
  "WIFI_CONNECTED_BIT = 1"

definition LVGL_TICK_MS :: nat where
  "LVGL_TICK_MS = 16"

subsection \<open>State\<close>

text \<open>
  \<open>wifi_connected\<close>, \<open>bt_enabled\<close> and \<open>wifi_event_group\<close> are the globals of the file
  (the event group is represented by its bits). \<open>uptime_ms\<close> is the time that has
  passed in the context of \<^verbatim>\<open>app_main\<close>, that is the time this context has been
  blocked in \<^verbatim>\<open>xEventGroupWaitBits\<close> and \<^verbatim>\<open>vTaskDelay\<close> or has made no progress.
  The task watchdog is the library's: \<open>wdt_timeout_ms\<close> is set by
  \<^verbatim>\<open>esp_task_wdt_init\<close>, \<open>wdt_fed_at\<close> is the time of the subscription
  (\<^verbatim>\<open>esp_task_wdt_add(NULL)\<close> subscribes the calling context, which is that of
  \<^verbatim>\<open>app_main\<close>) or of its last reset, and \<open>wdt_expired\<close> records that the countdown
  has run out, after which the platform resets the device.
\<close>

record sys =
  wifi_connected :: bool
  bt_enabled :: bool
  wifi_event_group :: "32 word"
  uptime_ms :: nat
  wdt_timeout_ms :: "nat option"
  wdt_fed_at :: "nat option"
  wdt_expired :: bool
  trace :: "call list"

definition init_sys :: sys where
  "init_sys = \<lparr> wifi_connected = False, bt_enabled = False, wifi_event_group = 0,
     uptime_ms = 0, wdt_timeout_ms = None, wdt_fed_at = None, wdt_expired = False,
     trace = [] \<rparr>"

definition emit :: "call \<Rightarrow> sys \<Rightarrow> sys" where
  "emit c s = s\<lparr>trace := trace s @ [c]\<rparr>"

definition emits :: "call list \<Rightarrow> sys \<Rightarrow> sys" where
  "emits cs s = s\<lparr>trace := trace s @ cs\<rparr>"

text \<open>A library call that returns a status: the call is recorded, the status is the one
  the environment supplies.\<close>

definition ext_call :: "call \<Rightarrow> esp_err \<Rightarrow> sys \<Rightarrow> esp_err \<times> sys" where
  "ext_call c r s = (r, emit c s)"

text \<open>
  The watchdog countdown as time passes in the subscribed context: once the context has
  gone a whole timeout without a reset, the countdown has run out.
\<close>

definition wdt_due :: "sys \<Rightarrow> nat \<Rightarrow> bool" where
  "wdt_due s t =
     (case wdt_timeout_ms s of
        None \<Rightarrow> False
      | Some timeout \<Rightarrow>
          (case wdt_fed_at s of None \<Rightarrow> False | Some fed \<Rightarrow> fed + timeout \<le> t))"

definition advance :: "nat \<Rightarrow> sys \<Rightarrow> sys" where
  "advance d s =
     s\<lparr>uptime_ms := uptime_ms s + d,
       wdt_expired := (wdt_expired s \<or> wdt_due s (uptime_ms s + d))\<rparr>"

text \<open>
  The program has two tasks: the one that runs \<^verbatim>\<open>app_main\<close> and the one created for
  \<^verbatim>\<open>lvgl_task\<close>. \<^verbatim>\<open>vTaskDelay\<close> blocks the task that calls it; a delay of the
  render task passes no time in the context of \<^verbatim>\<open>app_main\<close>.
\<close>

datatype task = MainTask | LvglTask

definition vTaskDelay :: "task \<Rightarrow> nat \<Rightarrow> sys \<Rightarrow> sys" where
  "vTaskDelay t ms s =
     (case t of MainTask \<Rightarrow> advance ms (emit (VTaskDelay ms) s)
      | LvglTask \<Rightarrow> emit (VTaskDelay ms) s)"

definition esp_task_wdt_init :: "nat \<Rightarrow> sys \<Rightarrow> sys" where
  "esp_task_wdt_init seconds s =
     emit (Esp_task_wdt_init seconds) (s\<lparr>wdt_timeout_ms := Some (seconds * 1000)\<rparr>)"

definition esp_task_wdt_add :: "sys \<Rightarrow> sys" where
  "esp_task_wdt_add s = emit Esp_task_wdt_add (s\<lparr>wdt_fed_at := Some (uptime_ms s)\<rparr>)"

definition esp_task_wdt_reset :: "sys \<Rightarrow> sys" where
  "esp_task_wdt_reset s =
     emit Esp_task_wdt_reset
       (case wdt_fed_at s of None \<Rightarrow> s | Some _ \<Rightarrow> s\<lparr>wdt_fed_at := Some (uptime_ms s)\<rparr>)"

subsection \<open>Display driver\<close>

text \<open>
  \<^verbatim>\<open>esp_restart()\<close> does not return: the device resets. A function that may request the
  reset returns \<open>Reset\<close> with the state at the request, and its caller stops there.
\<close>

datatype outcome = Reset sys | Done sys

definition lvgl_driver_init :: "bool \<Rightarrow> sys \<Rightarrow> outcome" where
  "lvgl_driver_init lcd_ok s =
     (let s1 = emit (LogI ''Init LovyanGFX QSPI...'') s;
          s2 = emit Lcd_setConfig s1;
          s3 = emit Lcd_init s2
      in if \<not> lcd_ok
         then Reset (emit Esp_restart (emit (LogE ''QSPI Init Fail - Pins/EMI? Retry shield.'') s3))
         else Done (emit (LogI ''QSPI OK - Freq %d MHz'') (emit (Lcd_setBrightness 128) s3)))"

subsection \<open>UI engine boundary\<close>

definition lv_tick_handler :: "sys \<Rightarrow> sys" where
  "lv_tick_handler s = emit (Lv ''lv_tick_inc'') s"

text \<open>One iteration of the \<^verbatim>\<open>while (1)\<close> of \<^verbatim>\<open>lvgl_task\<close>, and the task run for
  a number of iterations.\<close>

definition lvgl_task_iter :: "sys \<Rightarrow> sys" where
  "lvgl_task_iter s = vTaskDelay LvglTask LVGL_TICK_MS (emit (Lv ''lv_task_handler'') s)"

fun lvgl_task_loop :: "nat \<Rightarrow> sys \<Rightarrow> sys" where
  "lvgl_task_loop 0 s = s"
| "lvgl_task_loop (Suc n) s = lvgl_task_loop n (lvgl_task_iter s)"

definition lvgl_task :: "nat \<Rightarrow> sys \<Rightarrow> sys" where
  "lvgl_task n s = lvgl_task_loop n (emit (LogI ''LVGL Task Start'') s)"

definition create_ui_calls :: "call list" where
  "create_ui_calls =
     [LogI ''Create UI'',
      Lv ''lv_disp_drv_init'', Lv ''lv_disp_drv_register'',
      Lv ''lv_scr_act'', Lv ''lv_obj_create'', Lv ''lv_obj_set_size'', Lv ''lv_obj_set_pos'',
      Lv ''lv_color_hex'', Lv ''lv_obj_set_style_bg_color'',
      Lv ''lv_label_create'', Lv ''lv_label_set_text'', Lv ''lv_obj_align'',
      Lv ''lv_label_create'', Lv ''lv_obj_align'',
      Lv ''lv_label_create'', Lv ''lv_obj_align'',
      Lv ''lv_scr_act'', Lv ''lv_btn_create'', Lv ''lv_obj_set_pos'',
      Lv ''lv_label_create'', Lv ''lv_label_set_text'',
      Lv ''lv_scr_act'', Lv ''lv_keyboard_create'', Lv ''lv_keyboard_set_mode'',
      Lv ''lv_obj_set_size'', Lv ''lv_obj_align'', Lv ''lv_obj_add_flag'',
      Lv ''lv_scr_act'', Lv ''lv_textarea_create'', Lv ''lv_obj_set_pos'',
      Lv ''lv_textarea_set_placeholder_text'', Lv ''lv_obj_add_event_cb'',
      Lv ''lv_timer_create'']"

definition create_ui :: "sys \<Rightarrow> sys" where
  "create_ui s = emits create_ui_calls s"

subsection \<open>Wi-Fi\<close>

definition wifi_event_handler :: "event_id \<Rightarrow> sys \<Rightarrow> sys" where
  "wifi_event_handler event s =
     (if event = WIFI_EVENT_STA_START then emit Esp_wifi_connect s
      else if event = WIFI_EVENT_STA_DISCONNECTED then
        emit (LogW ''WiFi Disconnect - Retry'')
          (emit Esp_wifi_connect (s\<lparr>wifi_connected := False\<rparr>))
      else if event = IP_EVENT_STA_GOT_IP then
        emit (LogI ''WiFi IP OK'')
          (emit (XEventGroupSetBits WIFI_CONNECTED_BIT)
             (s\<lparr>wifi_connected := True,
                wifi_event_group := wifi_event_group s OR WIFI_CONNECTED_BIT\<rparr>))
      else s)"

text \<open>
  \<^verbatim>\<open>xEventGroupWaitBits(group, bits, pdFALSE, pdTRUE, ticks)\<close> as the library specifies
  it: the caller blocks until all of \<open>bits\<close> are set or the timeout has passed, and gets
  the value of the group at that moment; nothing is cleared. While the caller is blocked
  the event task delivers link events to the handler, one at a time; the environment
  lists them, each with the time in milliseconds since the previous one.
\<close>

fun wait_bits :: "32 word \<Rightarrow> nat \<Rightarrow> (nat \<times> event_id) list \<Rightarrow> sys \<Rightarrow> sys" where
  "wait_bits bits remaining [] s =
     (if wifi_event_group s AND bits = bits then s else advance remaining s)"
| "wait_bits bits remaining ((d, event) # evs) s =
     (if wifi_event_group s AND bits = bits then s
      else if remaining \<le> d then advance remaining s
      else wait_bits bits (remaining - d) evs (wifi_event_handler event (advance d s)))"

definition xEventGroupWaitBits ::
  "32 word \<Rightarrow> nat \<Rightarrow> (nat \<times> event_id) list \<Rightarrow> sys \<Rightarrow> 32 word \<times> sys" where
  "xEventGroupWaitBits bits timeout_ms evs s =
     (let s' = wait_bits bits timeout_ms evs (emit (XEventGroupWaitBits bits timeout_ms) s)
      in (wifi_event_group s', s'))"

definition wifi_init :: "(nat \<times> event_id) list \<Rightarrow> sys \<Rightarrow> sys" where
  "wifi_init evs s =
     (let s1 = emits [LogI ''Init WiFi'', Esp_netif_init, Esp_event_loop_create_default,
                      Esp_netif_create_default_wifi_sta, Esp_wifi_init,
                      Esp_event_handler_instance_register, Esp_event_handler_instance_register,
                      Esp_wifi_set_mode, Esp_wifi_set_config, Esp_wifi_start] s;
          (uxBits, s2) = xEventGroupWaitBits WIFI_CONNECTED_BIT 10000 evs s1
      in if uxBits = 0 then emit (LogE ''WiFi Timeout - Check cle/UI input'') s2 else s2)"

subsection \<open>Time sync, short-range radio, storage\<close>

definition ntp_init :: "sys \<Rightarrow> sys" where
  "ntp_init s =
     emits [LogI ''Init NTP'', Esp_sntp_setoperatingmode, Esp_sntp_setservername,
            Esp_sntp_init] s"

text \<open>The four statuses the short-range-radio calls return; the source drops each.\<close>

record bt_results =
  controller_init_result :: esp_err
  controller_enable_result :: esp_err
  bluedroid_init_result :: esp_err
  bluedroid_enable_result :: esp_err

definition bt_init :: "bt_results \<Rightarrow> sys \<Rightarrow> sys" where
  "bt_init r s =
     (let s0 = emit (LogI ''Init BT'') s;
          s1 = snd (ext_call Esp_bt_controller_init (controller_init_result r) s0);
          s2 = snd (ext_call Esp_bt_controller_enable (controller_enable_result r) s1);
          s3 = snd (ext_call Esp_bluedroid_init (bluedroid_init_result r) s2);
          s4 = snd (ext_call Esp_bluedroid_enable (bluedroid_enable_result r) s3)
      in s4\<lparr>bt_enabled := True\<rparr>)"

definition sdcard_init :: "esp_err \<Rightarrow> sys \<Rightarrow> sys" where
  "sdcard_init mount_result s =
     (let (ret, s1) = ext_call Esp_vfs_fat_sdmmc_mount mount_result (emit (LogI ''Init SD'') s)
      in if ret = ESP_OK then emit (LogI ''SD OK - Ready for JSON logs'') s1
         else emit (LogE ''SD Fail %d - Fallback to Flash'') s1)"

subsection \<open>app\_main\<close>

text \<open>What the libraries answer during one boot.\<close>

record env =
  nvs_init_first :: esp_err
  nvs_init_second :: esp_err
  lcd_init_ok :: bool
  sd_mount_result :: esp_err
  link_events :: "(nat \<times> event_id) list"
  bt_status :: bt_results

text \<open>
  \<^verbatim>\<open>app_main\<close> up to its \<^verbatim>\<open>while (1)\<close>. \<open>nvs_stage\<close> is its NVS
  initialisation (lines 236 to 240) and \<open>ui_bringup\<close> its start of the UI (lines 253 to
  267). \<open>app_main_init\<close> is the function up to and including the creation of the
  render task; \<open>app_main_boot\<close> adds the two watchdog calls that follow.
\<close>

definition nvs_stage :: "env \<Rightarrow> sys \<Rightarrow> sys" where
  "nvs_stage e s =
     (let (ret, s1) = ext_call Nvs_flash_init (nvs_init_first e) s
      in if ret = ESP_ERR_NVS_NO_FREE_PAGES \<or> ret = ESP_ERR_NVS_NEW_VERSION_FOUND
         then snd (ext_call Nvs_flash_init (nvs_init_second e) (emit Nvs_flash_erase s1))
         else s1)"

definition ui_bringup :: "sys \<Rightarrow> sys" where
  "ui_bringup s =
     (let s1 = emits [Lv ''lv_init'', Esp_timer_create,
                      Esp_timer_start_periodic (LVGL_TICK_MS * 1000)] s;
          s2 = create_ui s1
      in emit (XTaskCreate ''lvgl_task'' 4) s2)"

definition app_main_init :: "env \<Rightarrow> outcome" where
  "app_main_init e =
     (let s0 = emit (LogI ''App Main'') init_sys;
          s1 = nvs_stage e s0;
          s2 = emit XEventGroupCreate (s1\<lparr>wifi_event_group := 0\<rparr>)
      in case lvgl_driver_init (lcd_init_ok e) s2 of
           Reset s \<Rightarrow> Reset s
         | Done s3 \<Rightarrow>
             (let s4 = sdcard_init (sd_mount_result e) s3;
                  s5 = wifi_init (link_events e) s4;
                  s6 = bt_init (bt_status e) s5;
                  s7 = ntp_init s6
              in Done (ui_bringup s7)))"

definition app_main_boot :: "env \<Rightarrow> outcome" where
  "app_main_boot e =
     (case app_main_init e of
        Reset s \<Rightarrow> Reset s
      | Done s \<Rightarrow> Done (esp_task_wdt_add (esp_task_wdt_init 5 s)))"

text \<open>One period of the \<^verbatim>\<open>while (1)\<close> of \<^verbatim>\<open>app_main\<close>, and the loop run for a
  number of periods.\<close>

definition main_loop_iter :: "sys \<Rightarrow> sys" where
  "main_loop_iter s = esp_task_wdt_reset (vTaskDelay MainTask 1000 s)"

fun main_loop :: "nat \<Rightarrow> sys \<Rightarrow> sys" where
  "main_loop 0 s = s"
| "main_loop (Suc n) s = main_loop n (main_loop_iter s)"

text \<open>
  After the boot four contexts run: the render task, the periodic timer that calls
  \<^verbatim>\<open>lv_tick_handler\<close>, the event task that calls \<^verbatim>\<open>wifi_event_handler\<close>, and the
  loop of \<^verbatim>\<open>app_main\<close>. A schedule lists which context completes a step next.
\<close>

datatype context_step =
  RenderIteration | TickCallback | LinkEvent event_id | SupervisoryPeriod

fun perform :: "context_step \<Rightarrow> sys \<Rightarrow> sys" where
  "perform RenderIteration s = lvgl_task_iter s"
| "perform TickCallback s = lv_tick_handler s"
| "perform (LinkEvent event) s = wifi_event_handler event s"
| "perform SupervisoryPeriod s = main_loop_iter s"

fun run_after_boot :: "context_step list \<Rightarrow> sys \<Rightarrow> sys" where
  "run_after_boot [] s = s"
| "run_after_boot (x # xs) s = run_after_boot xs (perform x s)"

text \<open>The state of an outcome, and whether the boot reached the hand-over to the loop.\<close>

fun final :: "outcome \<Rightarrow> sys" where
  "final (Reset s) = s"
| "final (Done s) = s"

fun booted :: "outcome \<Rightarrow> bool" where
  "booted (Reset s) = False"
| "booted (Done s) = True"

subsection \<open>Observations on a trace\<close>

text \<open>
  The stage a library call belongs to. Log lines, the creation of the event group, the
  reset request, task delays and the watchdog calls belong to no stage.
\<close>

datatype BootStage = ConfigStore | Display | Storage | Connectivity | Pairing | TimeSync | UIReady

fun stage_of :: "call \<Rightarrow> BootStage option" where
  "stage_of (LogI m) = None"
| "stage_of (LogW m) = None"
| "stage_of (LogE m) = None"
| "stage_of Lcd_setConfig = Some Display"
| "stage_of Lcd_init = Some Display"
| "stage_of Esp_restart = None"
| "stage_of (Lcd_setBrightness b) = Some Display"
| "stage_of (Lv f) = Some UIReady"
| "stage_of (VTaskDelay ms) = None"
| "stage_of Esp_wifi_connect = Some Connectivity"
| "stage_of (XEventGroupSetBits b) = Some Connectivity"
| "stage_of Esp_netif_init = Some Connectivity"
| "stage_of Esp_event_loop_create_default = Some Connectivity"
| "stage_of Esp_netif_create_default_wifi_sta = Some Connectivity"
| "stage_of Esp_wifi_init = Some Connectivity"
| "stage_of Esp_event_handler_instance_register = Some Connectivity"
| "stage_of Esp_wifi_set_mode = Some Connectivity"
| "stage_of Esp_wifi_set_config = Some Connectivity"
| "stage_of Esp_wifi_start = Some Connectivity"
| "stage_of (XEventGroupWaitBits b ms) = Some Connectivity"
| "stage_of Esp_sntp_setoperatingmode = Some TimeSync"
| "stage_of Esp_sntp_setservername = Some TimeSync"
| "stage_of Esp_sntp_init = Some TimeSync"
| "stage_of Esp_bt_controller_init = Some Pairing"
| "stage_of Esp_bt_controller_enable = Some Pairing"
| "stage_of Esp_bluedroid_init = Some Pairing"
| "stage_of Esp_bluedroid_enable = Some Pairing"
| "stage_of Esp_vfs_fat_sdmmc_mount = Some Storage"
| "stage_of Nvs_flash_init = Some ConfigStore"
| "stage_of Nvs_flash_erase = Some ConfigStore"
| "stage_of XEventGroupCreate = None"
| "stage_of Esp_timer_create = Some UIReady"
| "stage_of (Esp_timer_start_periodic us) = Some UIReady"
| "stage_of (XTaskCreate name prio) = Some UIReady"
| "stage_of (Esp_task_wdt_init seconds) = None"
| "stage_of Esp_task_wdt_add = None"
| "stage_of Esp_task_wdt_reset = None"

text \<open>The stages of a trace in the order they are entered: a stage that is left and
  entered again appears twice.\<close>

definition stages :: "call list \<Rightarrow> BootStage list" where
  "stages tr = remdups_adj (List.map_filter stage_of tr)"

text \<open>Calls into the UI engine, and calls to the watchdog.\<close>

definition is_ui_call :: "call \<Rightarrow> bool" where
  "is_ui_call c = (case c of Lv f \<Rightarrow> True | _ \<Rightarrow> False)"

definition is_wdt_call :: "call \<Rightarrow> bool" where
  "is_wdt_call c =
     (case c of Esp_task_wdt_init n \<Rightarrow> True | Esp_task_wdt_add \<Rightarrow> True
      | Esp_task_wdt_reset \<Rightarrow> True | _ \<Rightarrow> False)"

definition is_wait_call :: "call \<Rightarrow> bool" where
  "is_wait_call c = (case c of XEventGroupWaitBits b ms \<Rightarrow> True | _ \<Rightarrow> False)"

text \<open>The event task delivering a sequence of link events to the handler, one at a
  time.\<close>

fun deliver :: "event_id list \<Rightarrow> sys \<Rightarrow> sys" where
  "deliver [] s = s"
| "deliver (event # evs) s = deliver evs (wifi_event_handler event s)"

subsection \<open>Definitions used in the statements\<close>

text \<open>
  The calls the handler can make, the calls of \<^verbatim>\<open>wifi_init\<close> up to its wait, the state
  at the call of \<^verbatim>\<open>wifi_init\<close> when the display is up, the calls of the NVS stage and
  the calls that follow \<^verbatim>\<open>wifi_init\<close>; then the environments the examples use.
\<close>

definition handler_calls :: "call set" where
  "handler_calls = {Esp_wifi_connect, XEventGroupSetBits WIFI_CONNECTED_BIT,
     LogW ''WiFi Disconnect - Retry'', LogI ''WiFi IP OK''}"

definition wifi_init_calls :: "call list" where
  "wifi_init_calls =
     [LogI ''Init WiFi'', Esp_netif_init, Esp_event_loop_create_default,
      Esp_netif_create_default_wifi_sta, Esp_wifi_init,
      Esp_event_handler_instance_register, Esp_event_handler_instance_register,
      Esp_wifi_set_mode, Esp_wifi_set_config, Esp_wifi_start,
      XEventGroupWaitBits WIFI_CONNECTED_BIT 10000]"

definition before_wifi :: "env \<Rightarrow> sys" where
  "before_wifi e =
     sdcard_init (sd_mount_result e)
       (emits [LogI ''Init LovyanGFX QSPI...'', Lcd_setConfig, Lcd_init,
               Lcd_setBrightness 128, LogI ''QSPI OK - Freq %d MHz'']
          (emit XEventGroupCreate
             ((nvs_stage e (emit (LogI ''App Main'') init_sys))\<lparr>wifi_event_group := 0\<rparr>)))"

definition nvs_calls :: "env \<Rightarrow> call list" where
  "nvs_calls e =
     (if nvs_init_first e = ESP_ERR_NVS_NO_FREE_PAGES \<or>
         nvs_init_first e = ESP_ERR_NVS_NEW_VERSION_FOUND
      then [Nvs_flash_init, Nvs_flash_erase, Nvs_flash_init] else [Nvs_flash_init])"

definition after_wifi_calls :: "call list" where
  "after_wifi_calls =
     [LogI ''Init BT'', Esp_bt_controller_init, Esp_bt_controller_enable,
      Esp_bluedroid_init, Esp_bluedroid_enable,
      LogI ''Init NTP'', Esp_sntp_setoperatingmode, Esp_sntp_setservername, Esp_sntp_init,
      Lv ''lv_init'', Esp_timer_create, Esp_timer_start_periodic 16000] @
     create_ui_calls @ [XTaskCreate ''lvgl_task'' 4]"

definition env_ok :: env where
  "env_ok = \<lparr> nvs_init_first = ESP_OK, nvs_init_second = ESP_OK, lcd_init_ok = True,
     sd_mount_result = ESP_OK,
     link_events = [(120, WIFI_EVENT_STA_START), (2300, IP_EVENT_STA_GOT_IP)],
     bt_status = \<lparr> controller_init_result = ESP_OK, controller_enable_result = ESP_OK,
       bluedroid_init_result = ESP_OK, bluedroid_enable_result = ESP_OK \<rparr> \<rparr>"

definition env_nvs_twice :: env where
  "env_nvs_twice = env_ok\<lparr> nvs_init_first := ESP_ERR_NVS_NO_FREE_PAGES,
     nvs_init_second := ESP_ERR_NVS_NO_FREE_PAGES \<rparr>"

definition env_display_fail :: env where
  "env_display_fail = env_ok\<lparr> lcd_init_ok := False \<rparr>"

definition env_degraded :: env where
  "env_degraded = env_ok\<lparr> sd_mount_result := ESP_FAIL,
     link_events := [(120, WIFI_EVENT_STA_START), (3000, WIFI_EVENT_STA_DISCONNECTED),
                     (3000, WIFI_EVENT_STA_DISCONNECTED)] \<rparr>"

definition env_bt_fail :: env where
  "env_bt_fail = env_ok\<lparr> bt_status := \<lparr> controller_init_result = ESP_OK,
     controller_enable_result = ESP_FAIL, bluedroid_init_result = ESP_FAIL,
     bluedroid_enable_result = ESP_FAIL \<rparr> \<rparr>"

text \<open>
  The state of the watchdog that the boot hands over to the loop: armed with five seconds,
  fed at the present time, not expired. Then a schedule for the examples.
\<close>

definition fed :: "sys \<Rightarrow> bool" where
  "fed s = (wdt_timeout_ms s = Some 5000 \<and> wdt_fed_at s = Some (uptime_ms s) \<and>
            \<not> wdt_expired s)"

definition schedule_mixed :: "context_step list" where
  "schedule_mixed =
     [RenderIteration, SupervisoryPeriod, TickCallback, LinkEvent WIFI_EVENT_STA_DISCONNECTED,
      RenderIteration, SupervisoryPeriod]"

section \<open>Lemmas\<close>

subsection \<open>Fields after the basic operations\<close>

lemma emit_fields [simp]:
  "trace (emit c s) = trace s @ [c]"
  "wifi_connected (emit c s) = wifi_connected s"
  "bt_enabled (emit c s) = bt_enabled s"
  "wifi_event_group (emit c s) = wifi_event_group s"
  "uptime_ms (emit c s) = uptime_ms s"
  "wdt_timeout_ms (emit c s) = wdt_timeout_ms s"
  "wdt_fed_at (emit c s) = wdt_fed_at s"
  "wdt_expired (emit c s) = wdt_expired s"
  by (simp_all add: emit_def)

lemma emits_fields [simp]:
  "trace (emits cs s) = trace s @ cs"
  "wifi_connected (emits cs s) = wifi_connected s"
  "bt_enabled (emits cs s) = bt_enabled s"
  "wifi_event_group (emits cs s) = wifi_event_group s"
  "uptime_ms (emits cs s) = uptime_ms s"
  "wdt_timeout_ms (emits cs s) = wdt_timeout_ms s"
  "wdt_fed_at (emits cs s) = wdt_fed_at s"
  "wdt_expired (emits cs s) = wdt_expired s"
  by (simp_all add: emits_def)

lemma advance_fields [simp]:
  "trace (advance d s) = trace s"
  "wifi_connected (advance d s) = wifi_connected s"
  "bt_enabled (advance d s) = bt_enabled s"
  "wifi_event_group (advance d s) = wifi_event_group s"
  "uptime_ms (advance d s) = uptime_ms s + d"
  "wdt_timeout_ms (advance d s) = wdt_timeout_ms s"
  "wdt_fed_at (advance d s) = wdt_fed_at s"
  "wdt_expired (advance d s) = (wdt_expired s \<or> wdt_due s (uptime_ms s + d))"
  by (simp_all add: advance_def)

lemma wdt_due_unarmed [simp]: "wdt_timeout_ms s = None \<Longrightarrow> wdt_due s t = False"
  by (simp add: wdt_due_def)

subsection \<open>The handler\<close>

lemma handler_frame [simp]:
  "bt_enabled (wifi_event_handler ev s) = bt_enabled s"
  "uptime_ms (wifi_event_handler ev s) = uptime_ms s"
  "wdt_timeout_ms (wifi_event_handler ev s) = wdt_timeout_ms s"
  "wdt_fed_at (wifi_event_handler ev s) = wdt_fed_at s"
  "wdt_expired (wifi_event_handler ev s) = wdt_expired s"
  by (simp_all add: wifi_event_handler_def)

lemma handler_trace:
  "\<exists>w. trace (wifi_event_handler ev s) = trace s @ w \<and> set w \<subseteq> handler_calls"
  by (cases ev) (simp_all add: wifi_event_handler_def handler_calls_def)

lemma bit0_or: "(x OR WIFI_CONNECTED_BIT) AND WIFI_CONNECTED_BIT = WIFI_CONNECTED_BIT"
  by (simp add: WIFI_CONNECTED_BIT_def)

lemma bit0_nz: "x AND WIFI_CONNECTED_BIT = WIFI_CONNECTED_BIT \<Longrightarrow> x \<noteq> 0"
  by (auto simp add: WIFI_CONNECTED_BIT_def)

subsection \<open>The bounded wait\<close>

lemma wait_frame [simp]:
  "bt_enabled (wait_bits b r evs s) = bt_enabled s"
  "wdt_timeout_ms (wait_bits b r evs s) = wdt_timeout_ms s"
  "wdt_fed_at (wait_bits b r evs s) = wdt_fed_at s"
  by (induction b r evs s rule: wait_bits.induct; simp)+

lemma wait_upper: "uptime_ms (wait_bits b r evs s) \<le> uptime_ms s + r"
  by (induction b r evs s rule: wait_bits.induct) auto

lemma wait_expiry_time:
  "wifi_event_group (wait_bits b r evs s) AND b \<noteq> b \<Longrightarrow>
   uptime_ms (wait_bits b r evs s) = uptime_ms s + r"
  by (induction b r evs s rule: wait_bits.induct) (auto split: if_splits)

lemma wait_unarmed:
  "wdt_timeout_ms s = None \<Longrightarrow> wdt_expired (wait_bits b r evs s) = wdt_expired s"
  by (induction b r evs s rule: wait_bits.induct) auto

lemma wait_trace:
  "\<exists>w. trace (wait_bits b r evs s) = trace s @ w \<and> set w \<subseteq> handler_calls"
proof (induction b r evs s rule: wait_bits.induct)
  case (1 bits remaining s)
  then show ?case by simp
next
  case (2 bits remaining d event evs s)
  show ?case
  proof (cases "wifi_event_group s AND bits = bits \<or> remaining \<le> d")
    case True
    then show ?thesis by auto
  next
    case False
    obtain w1 where w1: "trace (wifi_event_handler event (advance d s)) = trace s @ w1"
      "set w1 \<subseteq> handler_calls"
      using handler_trace [of event "advance d s"] by auto
    from False 2 obtain w2 where
      w2: "trace (wait_bits bits (remaining - d) evs (wifi_event_handler event (advance d s)))
             = trace (wifi_event_handler event (advance d s)) @ w2"
          "set w2 \<subseteq> handler_calls"
      by auto
    have "trace (wait_bits bits remaining ((d, event) # evs) s) = trace s @ (w1 @ w2)"
      using False w1 w2 by simp
    moreover have "set (w1 @ w2) \<subseteq> handler_calls" using w1 w2 by simp
    ultimately show ?thesis by blast
  qed
qed

lemma wait_connected:
  "\<not> wifi_connected s \<Longrightarrow>
   wifi_event_group (wait_bits WIFI_CONNECTED_BIT r evs s) = 0 \<Longrightarrow>
   \<not> wifi_connected (wait_bits WIFI_CONNECTED_BIT r evs s)"
proof (induction "WIFI_CONNECTED_BIT" r evs s rule: wait_bits.induct)
  case (1 remaining s)
  then show ?case by (simp split: if_splits)
next
  case (2 remaining d event evs s)
  show ?case
  proof (cases "wifi_event_group s AND WIFI_CONNECTED_BIT = WIFI_CONNECTED_BIT \<or> remaining \<le> d")
    case True
    with 2 show ?thesis by (auto split: if_splits)
  next
    case False
    let ?s' = "wifi_event_handler event (advance d s)"
    show ?thesis
    proof (cases "event = IP_EVENT_STA_GOT_IP")
      case True
      then have set: "wifi_event_group ?s' AND WIFI_CONNECTED_BIT = WIFI_CONNECTED_BIT"
        by (simp add: wifi_event_handler_def bit0_or)
      then have "wait_bits WIFI_CONNECTED_BIT (remaining - d) evs ?s' = ?s'"
        by (cases evs) auto
      with False 2(3) have "wifi_event_group ?s' = 0" by simp
      with set bit0_nz show ?thesis by blast
    next
      case notip: False
      then have "\<not> wifi_connected ?s'"
        using 2(2) by (cases event) (simp_all add: wifi_event_handler_def)
      with 2 False show ?thesis by simp
    qed
  qed
qed

subsection \<open>Each function as a change of the state\<close>

lemma nvs_stage_eq:
  "nvs_stage e s =
     emits (if nvs_init_first e = ESP_ERR_NVS_NO_FREE_PAGES \<or>
               nvs_init_first e = ESP_ERR_NVS_NEW_VERSION_FOUND
            then [Nvs_flash_init, Nvs_flash_erase, Nvs_flash_init] else [Nvs_flash_init]) s"
  by (simp add: nvs_stage_def ext_call_def emit_def emits_def)

lemma lvgl_driver_init_eq:
  "lvgl_driver_init ok s =
     (if ok then Done (emits [LogI ''Init LovyanGFX QSPI...'', Lcd_setConfig, Lcd_init,
                              Lcd_setBrightness 128, LogI ''QSPI OK - Freq %d MHz''] s)
      else Reset (emits [LogI ''Init LovyanGFX QSPI...'', Lcd_setConfig, Lcd_init,
                         LogE ''QSPI Init Fail - Pins/EMI? Retry shield.'', Esp_restart] s))"
  by (simp add: lvgl_driver_init_def emit_def emits_def)

lemma sdcard_init_eq:
  "sdcard_init r s =
     emits [LogI ''Init SD'', Esp_vfs_fat_sdmmc_mount,
            if r = ESP_OK then LogI ''SD OK - Ready for JSON logs''
            else LogE ''SD Fail %d - Fallback to Flash''] s"
  by (simp add: sdcard_init_def ext_call_def emit_def emits_def)

lemma bt_init_eq:
  "bt_init r s =
     (emits [LogI ''Init BT'', Esp_bt_controller_init, Esp_bt_controller_enable,
             Esp_bluedroid_init, Esp_bluedroid_enable] s)\<lparr>bt_enabled := True\<rparr>"
  by (simp add: bt_init_def ext_call_def emit_def emits_def)

lemma ui_bringup_eq:
  "ui_bringup s =
     emits ([Lv ''lv_init'', Esp_timer_create, Esp_timer_start_periodic 16000] @
            create_ui_calls @ [XTaskCreate ''lvgl_task'' 4]) s"
  by (simp add: ui_bringup_def create_ui_def emit_def emits_def LVGL_TICK_MS_def)

lemma wifi_init_eq:
  "wifi_init evs s =
     (let s' = wait_bits WIFI_CONNECTED_BIT 10000 evs (emits wifi_init_calls s)
      in if wifi_event_group s' = 0 then emit (LogE ''WiFi Timeout - Check cle/UI input'') s'
         else s')"
  by (simp add: wifi_init_def xEventGroupWaitBits_def wifi_init_calls_def emit_def emits_def Let_def)

lemma wifi_init_frame [simp]:
  "bt_enabled (wifi_init evs s) = bt_enabled s"
  "wdt_timeout_ms (wifi_init evs s) = wdt_timeout_ms s"
  "wdt_fed_at (wifi_init evs s) = wdt_fed_at s"
  by (simp_all add: wifi_init_eq Let_def)

lemma wifi_init_upper: "uptime_ms (wifi_init evs s) \<le> uptime_ms s + 10000"
  using wait_upper [of WIFI_CONNECTED_BIT 10000 evs "emits wifi_init_calls s"]
  by (simp add: wifi_init_eq Let_def)

lemma wifi_init_trace:
  "\<exists>w. set w \<subseteq> handler_calls \<and>
     trace (wifi_init evs s) =
       trace s @ wifi_init_calls @ w @
         (if wifi_event_group (wifi_init evs s) = 0
          then [LogE ''WiFi Timeout - Check cle/UI input''] else [])"
proof -
  obtain w where w: "set w \<subseteq> handler_calls"
    "trace (wait_bits WIFI_CONNECTED_BIT 10000 evs (emits wifi_init_calls s)) =
       trace (emits wifi_init_calls s) @ w"
    using wait_trace by blast
  then show ?thesis by (auto simp add: wifi_init_eq Let_def)
qed

lemma wifi_init_timeout:
  assumes "wifi_event_group (wifi_init evs s) = 0"
  shows "uptime_ms (wifi_init evs s) = uptime_ms s + 10000"
proof -
  let ?w = "wait_bits WIFI_CONNECTED_BIT 10000 evs (emits wifi_init_calls s)"
  from assms have z: "wifi_event_group ?w = 0" by (simp add: wifi_init_eq Let_def split: if_splits)
  then have "wifi_event_group ?w AND WIFI_CONNECTED_BIT \<noteq> WIFI_CONNECTED_BIT"
    by (simp add: WIFI_CONNECTED_BIT_def)
  from wait_expiry_time [OF this] z show ?thesis by (simp add: wifi_init_eq Let_def)
qed

lemma wifi_init_not_connected:
  assumes "\<not> wifi_connected s" "wifi_event_group (wifi_init evs s) = 0"
  shows "\<not> wifi_connected (wifi_init evs s)"
proof -
  let ?w = "wait_bits WIFI_CONNECTED_BIT 10000 evs (emits wifi_init_calls s)"
  from assms have z: "wifi_event_group ?w = 0" by (simp add: wifi_init_eq Let_def split: if_splits)
  have "\<not> wifi_connected (emits wifi_init_calls s)" using assms by simp
  from wait_connected [OF this z] z show ?thesis by (simp add: wifi_init_eq Let_def)
qed

lemma wifi_init_unarmed:
  "wdt_timeout_ms s = None \<Longrightarrow> wdt_expired (wifi_init evs s) = wdt_expired s"
  using wait_unarmed [of "emits wifi_init_calls s" WIFI_CONNECTED_BIT 10000 evs]
  by (simp add: wifi_init_eq Let_def)

subsection \<open>The boot as a whole\<close>

lemma app_main_init_ok:
  "lcd_init_ok e \<Longrightarrow>
   app_main_init e =
     Done (ui_bringup (ntp_init (bt_init (bt_status e)
            (wifi_init (link_events e) (before_wifi e)))))"
  by (simp add: app_main_init_def lvgl_driver_init_eq before_wifi_def Let_def)

lemma app_main_init_fail:
  "\<not> lcd_init_ok e \<Longrightarrow>
   app_main_init e =
     Reset (emits [LogI ''Init LovyanGFX QSPI...'', Lcd_setConfig, Lcd_init,
                   LogE ''QSPI Init Fail - Pins/EMI? Retry shield.'', Esp_restart]
              (emit XEventGroupCreate
                 ((nvs_stage e (emit (LogI ''App Main'') init_sys))\<lparr>wifi_event_group := 0\<rparr>)))"
  by (simp add: app_main_init_def lvgl_driver_init_eq Let_def)

lemma before_wifi_fields:
  "trace (before_wifi e) =
     LogI ''App Main'' # nvs_calls e @
     [XEventGroupCreate, LogI ''Init LovyanGFX QSPI...'', Lcd_setConfig, Lcd_init,
      Lcd_setBrightness 128, LogI ''QSPI OK - Freq %d MHz'', LogI ''Init SD'',
      Esp_vfs_fat_sdmmc_mount,
      if sd_mount_result e = ESP_OK then LogI ''SD OK - Ready for JSON logs''
      else LogE ''SD Fail %d - Fallback to Flash'']"
  "wifi_connected (before_wifi e) = False"
  "bt_enabled (before_wifi e) = False"
  "wifi_event_group (before_wifi e) = 0"
  "uptime_ms (before_wifi e) = 0"
  "wdt_timeout_ms (before_wifi e) = None"
  "wdt_fed_at (before_wifi e) = None"
  "wdt_expired (before_wifi e) = False"
  by (simp_all add: before_wifi_def sdcard_init_eq nvs_stage_eq nvs_calls_def init_sys_def)

lemma after_wifi_fields:
  "trace (ui_bringup (ntp_init (bt_init r s))) = trace s @ after_wifi_calls"
  "wifi_connected (ui_bringup (ntp_init (bt_init r s))) = wifi_connected s"
  "bt_enabled (ui_bringup (ntp_init (bt_init r s))) = True"
  "wifi_event_group (ui_bringup (ntp_init (bt_init r s))) = wifi_event_group s"
  "uptime_ms (ui_bringup (ntp_init (bt_init r s))) = uptime_ms s"
  "wdt_timeout_ms (ui_bringup (ntp_init (bt_init r s))) = wdt_timeout_ms s"
  "wdt_fed_at (ui_bringup (ntp_init (bt_init r s))) = wdt_fed_at s"
  "wdt_expired (ui_bringup (ntp_init (bt_init r s))) = wdt_expired s"
  by (simp_all add: ui_bringup_eq ntp_init_def bt_init_eq after_wifi_calls_def)

text \<open>The trace of a boot whose display initialisation succeeds.\<close>

lemma boot_trace_ok:
  assumes "lcd_init_ok e"
  shows "\<exists>w. set w \<subseteq> handler_calls \<and>
     trace (final (app_main_init e)) =
       trace (before_wifi e) @ wifi_init_calls @ w @
       (if wifi_event_group (final (app_main_init e)) = 0
        then [LogE ''WiFi Timeout - Check cle/UI input''] else []) @
       after_wifi_calls"
proof -
  obtain w where w: "set w \<subseteq> handler_calls"
    "trace (wifi_init (link_events e) (before_wifi e)) =
       trace (before_wifi e) @ wifi_init_calls @ w @
         (if wifi_event_group (wifi_init (link_events e) (before_wifi e)) = 0
          then [LogE ''WiFi Timeout - Check cle/UI input''] else [])"
    using wifi_init_trace by blast
  show ?thesis
    by (rule exI [of _ w]) (simp add: app_main_init_ok [OF assms] after_wifi_fields w)
qed

lemma boot_trace_fail:
  assumes "\<not> lcd_init_ok e"
  shows "trace (final (app_main_init e)) =
       LogI ''App Main'' # nvs_calls e @
       [XEventGroupCreate, LogI ''Init LovyanGFX QSPI...'', Lcd_setConfig, Lcd_init,
        LogE ''QSPI Init Fail - Pins/EMI? Retry shield.'', Esp_restart]"
  by (simp add: app_main_init_fail [OF assms] nvs_stage_eq nvs_calls_def init_sys_def)

lemma boot_final:
  "final (app_main_boot e) =
     (if lcd_init_ok e then esp_task_wdt_add (esp_task_wdt_init 5 (final (app_main_init e)))
      else final (app_main_init e))"
  by (cases "lcd_init_ok e") (simp_all add: app_main_boot_def app_main_init_ok app_main_init_fail)

lemma booted_iff [simp]:
  "booted (app_main_boot e) = lcd_init_ok e"
  "booted (app_main_init e) = lcd_init_ok e"
  by (cases "lcd_init_ok e"; simp add: app_main_boot_def app_main_init_ok app_main_init_fail)+

subsection \<open>Projections of handler calls\<close>

lemma mf_append: "List.map_filter f (xs @ ys) = List.map_filter f xs @ List.map_filter f ys"
  by (simp add: List.map_filter_def)

lemma handler_calls_stage:
  "set w \<subseteq> handler_calls \<Longrightarrow> \<exists>k. List.map_filter stage_of w = replicate k Connectivity"
proof (induction w)
  case Nil
  then show ?case by (simp add: List.map_filter_simps)
next
  case (Cons c w)
  then obtain k where k: "List.map_filter stage_of w = replicate k Connectivity" by auto
  from Cons.prems have "c \<in> handler_calls" by simp
  then have "stage_of c = None \<or> stage_of c = Some Connectivity"
    by (auto simp add: handler_calls_def)
  then show ?case
  proof
    assume "stage_of c = None"
    with k show ?thesis by (auto simp add: List.map_filter_simps)
  next
    assume "stage_of c = Some Connectivity"
    with k have "List.map_filter stage_of (c # w) = replicate (Suc k) Connectivity"
      by (simp add: List.map_filter_simps)
    then show ?thesis by blast
  qed
qed

lemma handler_calls_count:
  "set w \<subseteq> handler_calls \<Longrightarrow> c \<notin> handler_calls \<Longrightarrow> count_list w c = 0"
  by (induction w) auto

lemma handler_calls_filter:
  "set w \<subseteq> handler_calls \<Longrightarrow> \<forall>c\<in>handler_calls. \<not> P c \<Longrightarrow> filter P w = []"
  by (induction w) auto

lemma remdups_adj_run: "remdups_adj (x # replicate k x @ ys) = remdups_adj (x # ys)"
  by (induction k) simp_all

subsection \<open>Stages of a boot\<close>

lemma boot_trace:
  "trace (final (app_main_boot e)) =
     trace (final (app_main_init e)) @
     (if lcd_init_ok e then [Esp_task_wdt_init 5, Esp_task_wdt_add] else [])"
  by (simp add: boot_final esp_task_wdt_init_def esp_task_wdt_add_def)

lemma boot_fields:
  "wifi_connected (final (app_main_boot e)) = wifi_connected (final (app_main_init e))"
  "bt_enabled (final (app_main_boot e)) = bt_enabled (final (app_main_init e))"
  "wifi_event_group (final (app_main_boot e)) = wifi_event_group (final (app_main_init e))"
  "uptime_ms (final (app_main_boot e)) = uptime_ms (final (app_main_init e))"
  by (simp_all add: boot_final esp_task_wdt_init_def esp_task_wdt_add_def)

lemma init_fields_ok:
  assumes "lcd_init_ok e"
  shows "wifi_connected (final (app_main_init e)) =
           wifi_connected (wifi_init (link_events e) (before_wifi e))"
    and "bt_enabled (final (app_main_init e)) = True"
    and "wifi_event_group (final (app_main_init e)) =
           wifi_event_group (wifi_init (link_events e) (before_wifi e))"
    and "uptime_ms (final (app_main_init e)) =
           uptime_ms (wifi_init (link_events e) (before_wifi e))"
    and "wdt_timeout_ms (final (app_main_init e)) = None"
    and "wdt_fed_at (final (app_main_init e)) = None"
    and "wdt_expired (final (app_main_init e)) = False"
  by (simp_all add: app_main_init_ok [OF assms] after_wifi_fields before_wifi_fields
      wifi_init_unarmed)

lemma init_fields_fail:
  assumes "\<not> lcd_init_ok e"
  shows "wifi_connected (final (app_main_init e)) = False"
    and "bt_enabled (final (app_main_init e)) = False"
    and "wifi_event_group (final (app_main_init e)) = 0"
    and "uptime_ms (final (app_main_init e)) = 0"
    and "wdt_timeout_ms (final (app_main_init e)) = None"
    and "wdt_fed_at (final (app_main_init e)) = None"
    and "wdt_expired (final (app_main_init e)) = False"
  by (simp_all add: app_main_init_fail [OF assms] nvs_stage_eq init_sys_def)

lemma stages_append_none:
  "List.map_filter stage_of ys = [] \<Longrightarrow> stages (xs @ ys) = stages xs"
  by (simp add: stages_def mf_append)

lemma init_stages:
  "stages (trace (final (app_main_init e))) =
     (if lcd_init_ok e
      then [ConfigStore, Display, Storage, Connectivity, Pairing, TimeSync, UIReady]
      else [ConfigStore, Display])"
proof (cases "lcd_init_ok e")
  case True
  obtain w where w: "set w \<subseteq> handler_calls"
    "trace (final (app_main_init e)) =
       trace (before_wifi e) @ wifi_init_calls @ w @
       (if wifi_event_group (final (app_main_init e)) = 0
        then [LogE ''WiFi Timeout - Check cle/UI input''] else []) @
       after_wifi_calls"
    using boot_trace_ok [OF True] by blast
  obtain k where k: "List.map_filter stage_of w = replicate k Connectivity"
    using handler_calls_stage [OF w(1)] by blast
  have "List.map_filter stage_of (trace (final (app_main_init e))) =
      List.map_filter stage_of (trace (before_wifi e)) @
      List.map_filter stage_of wifi_init_calls @ replicate k Connectivity @
      List.map_filter stage_of after_wifi_calls"
    unfolding w(2) mf_append k by simp
  then show ?thesis using True
    by (simp add: stages_def before_wifi_fields nvs_calls_def mf_append wifi_init_calls_def
        after_wifi_calls_def create_ui_calls_def remdups_adj_run)
next
  case False
  then show ?thesis
    by (simp add: boot_trace_fail stages_def nvs_calls_def List.map_filter_simps)
qed

lemma boot_stages:
  "stages (trace (final (app_main_boot e))) =
     (if lcd_init_ok e
      then [ConfigStore, Display, Storage, Connectivity, Pairing, TimeSync, UIReady]
      else [ConfigStore, Display])"
  unfolding boot_trace
  by (subst stages_append_none) (simp_all add: List.map_filter_simps init_stages)

subsection \<open>Counting the calls of a boot\<close>

lemma not_handler_call [simp]:
  "Esp_restart \<notin> handler_calls" "Nvs_flash_erase \<notin> handler_calls"
  "Nvs_flash_init \<notin> handler_calls" "Esp_vfs_fat_sdmmc_mount \<notin> handler_calls"
  "LogE m \<notin> handler_calls" "Lcd_init \<notin> handler_calls"
  by (simp_all add: handler_calls_def)

text \<open>Counting a call that neither the handler nor the timeout branch issues.\<close>

lemma init_count:
  assumes "c \<notin> handler_calls" "c \<noteq> LogE ''WiFi Timeout - Check cle/UI input''"
  shows "count_list (trace (final (app_main_init e))) c =
     (if lcd_init_ok e
      then count_list (trace (before_wifi e)) c + count_list wifi_init_calls c +
           count_list after_wifi_calls c
      else count_list
        (LogI ''App Main'' # nvs_calls e @
          [XEventGroupCreate, LogI ''Init LovyanGFX QSPI...'', Lcd_setConfig, Lcd_init,
           LogE ''QSPI Init Fail - Pins/EMI? Retry shield.'', Esp_restart]) c)"
proof (cases "lcd_init_ok e")
  case True
  obtain w where w: "set w \<subseteq> handler_calls"
    "trace (final (app_main_init e)) =
       trace (before_wifi e) @ wifi_init_calls @ w @
       (if wifi_event_group (final (app_main_init e)) = 0
        then [LogE ''WiFi Timeout - Check cle/UI input''] else []) @
       after_wifi_calls"
    using boot_trace_ok [OF True] by blast
  have "count_list w c = 0" using handler_calls_count [OF w(1) assms(1)] .
  then show ?thesis using True assms(2) unfolding w(2) by simp
next
  case False
  then show ?thesis by (simp add: boot_trace_fail)
qed

lemma init_filter:
  assumes "\<forall>c\<in>handler_calls. \<not> P c" "\<not> P (LogE ''WiFi Timeout - Check cle/UI input'')"
  shows "filter P (trace (final (app_main_init e))) =
     (if lcd_init_ok e
      then filter P (trace (before_wifi e)) @ filter P wifi_init_calls @
           filter P after_wifi_calls
      else filter P
        (LogI ''App Main'' # nvs_calls e @
          [XEventGroupCreate, LogI ''Init LovyanGFX QSPI...'', Lcd_setConfig, Lcd_init,
           LogE ''QSPI Init Fail - Pins/EMI? Retry shield.'', Esp_restart]))"
proof (cases "lcd_init_ok e")
  case True
  obtain w where w: "set w \<subseteq> handler_calls"
    "trace (final (app_main_init e)) =
       trace (before_wifi e) @ wifi_init_calls @ w @
       (if wifi_event_group (final (app_main_init e)) = 0
        then [LogE ''WiFi Timeout - Check cle/UI input''] else []) @
       after_wifi_calls"
    using boot_trace_ok [OF True] by blast
  have "filter P w = []" using handler_calls_filter [OF w(1) assms(1)] .
  then show ?thesis using True assms(2) unfolding w(2) by simp
next
  case False
  then show ?thesis by (simp add: boot_trace_fail)
qed

lemma count_restart:
  "count_list (trace (final (app_main_boot e))) Esp_restart = (if lcd_init_ok e then 0 else 1)"
  by (simp add: boot_trace init_count before_wifi_fields nvs_calls_def wifi_init_calls_def
      after_wifi_calls_def create_ui_calls_def)

lemma count_erase:
  "count_list (trace (final (app_main_boot e))) Nvs_flash_erase =
     (if nvs_init_first e = ESP_ERR_NVS_NO_FREE_PAGES \<or>
         nvs_init_first e = ESP_ERR_NVS_NEW_VERSION_FOUND then 1 else 0)"
  by (simp add: boot_trace init_count before_wifi_fields nvs_calls_def wifi_init_calls_def
      after_wifi_calls_def create_ui_calls_def)

lemma count_nvs_init:
  "count_list (trace (final (app_main_boot e))) Nvs_flash_init =
     (if nvs_init_first e = ESP_ERR_NVS_NO_FREE_PAGES \<or>
         nvs_init_first e = ESP_ERR_NVS_NEW_VERSION_FOUND then 2 else 1)"
  by (simp add: boot_trace init_count before_wifi_fields nvs_calls_def wifi_init_calls_def
      after_wifi_calls_def create_ui_calls_def)

lemma count_lcd_init:
  "count_list (trace (final (app_main_boot e))) Lcd_init = 1"
  by (simp add: boot_trace init_count before_wifi_fields nvs_calls_def wifi_init_calls_def
      after_wifi_calls_def create_ui_calls_def)

lemma count_mount:
  "count_list (trace (final (app_main_boot e))) Esp_vfs_fat_sdmmc_mount =
     (if lcd_init_ok e then 1 else 0)"
  by (simp add: boot_trace init_count before_wifi_fields nvs_calls_def wifi_init_calls_def
      after_wifi_calls_def create_ui_calls_def)

lemma boot_ignores_second_nvs:
  "app_main_boot (e\<lparr>nvs_init_second := r\<rparr>) = app_main_boot e"
  by (cases "lcd_init_ok e")
    (simp_all add: app_main_boot_def app_main_init_def nvs_stage_eq lvgl_driver_init_eq Let_def)

lemma boot_ignores_bt:
  "app_main_boot (e\<lparr>bt_status := r\<rparr>) = app_main_boot e"
  by (cases "lcd_init_ok e")
    (simp_all add: app_main_boot_def app_main_init_def lvgl_driver_init_eq bt_init_eq
      nvs_stage_eq Let_def)

subsection \<open>Sequences of disconnect events\<close>

lemma handler_disconnected:
  "wifi_event_handler WIFI_EVENT_STA_DISCONNECTED s =
     s\<lparr>wifi_connected := False,
       trace := trace s @ [Esp_wifi_connect, LogW ''WiFi Disconnect - Retry'']\<rparr>"
  by (simp add: wifi_event_handler_def emit_def)

lemma deliver_disconnected_count:
  "count_list (trace (deliver (replicate n WIFI_EVENT_STA_DISCONNECTED) s)) Esp_wifi_connect =
     count_list (trace s) Esp_wifi_connect + n"
  by (induction n arbitrary: s) (simp_all add: handler_disconnected)

lemma deliver_disconnected_time:
  "uptime_ms (deliver (replicate n WIFI_EVENT_STA_DISCONNECTED) s) = uptime_ms s"
  by (induction n arbitrary: s) (simp_all add: handler_disconnected)

lemma deliver_disconnected_flag:
  "wifi_connected (deliver (replicate n WIFI_EVENT_STA_DISCONNECTED) s) =
     (if n = 0 then wifi_connected s else False)"
  by (induction n arbitrary: s) (simp_all add: handler_disconnected)

subsection \<open>The wait within the boot\<close>

lemma not_handler_call2 [simp]:
  "Lv f \<notin> handler_calls" "Esp_task_wdt_reset \<notin> handler_calls"
  by (simp_all add: handler_calls_def)

lemma count_timeout_log:
  "count_list (trace (final (app_main_boot e))) (LogE ''WiFi Timeout - Check cle/UI input'') =
     (if lcd_init_ok e \<and> wifi_event_group (final (app_main_boot e)) = 0 then 1 else 0)"
proof (cases "lcd_init_ok e")
  case True
  obtain w where w: "set w \<subseteq> handler_calls"
    "trace (final (app_main_init e)) =
       trace (before_wifi e) @ wifi_init_calls @ w @
       (if wifi_event_group (final (app_main_init e)) = 0
        then [LogE ''WiFi Timeout - Check cle/UI input''] else []) @
       after_wifi_calls"
    using boot_trace_ok [OF True] by blast
  have "count_list w (LogE ''WiFi Timeout - Check cle/UI input'') = 0"
    using handler_calls_count [OF w(1)] by simp
  then show ?thesis using True unfolding boot_trace w(2)
    by (simp add: boot_fields before_wifi_fields nvs_calls_def wifi_init_calls_def
        after_wifi_calls_def create_ui_calls_def)
next
  case False
  then show ?thesis by (simp add: boot_trace boot_trace_fail nvs_calls_def)
qed

lemma filter_wait_calls:
  "filter is_wait_call (trace (final (app_main_boot e))) =
     (if lcd_init_ok e then [XEventGroupWaitBits WIFI_CONNECTED_BIT 10000] else [])"
  using init_filter [of is_wait_call e]
  by (simp add: boot_trace handler_calls_def is_wait_call_def before_wifi_fields nvs_calls_def
      wifi_init_calls_def after_wifi_calls_def create_ui_calls_def)

lemma filter_wdt_calls_init:
  "filter is_wdt_call (trace (final (app_main_init e))) = []"
  using init_filter [of is_wdt_call e]
  by (simp add: handler_calls_def is_wdt_call_def before_wifi_fields nvs_calls_def
      wifi_init_calls_def after_wifi_calls_def create_ui_calls_def)

lemma boot_uptime: "uptime_ms (final (app_main_boot e)) \<le> 10000"
proof (cases "lcd_init_ok e")
  case True
  then show ?thesis
    using wifi_init_upper [of "link_events e" "before_wifi e"]
    by (simp add: boot_fields init_fields_ok before_wifi_fields)
next
  case False
  then show ?thesis by (simp add: boot_fields init_fields_fail)
qed

lemma boot_timeout:
  assumes "lcd_init_ok e" "wifi_event_group (final (app_main_boot e)) = 0"
  shows "uptime_ms (final (app_main_boot e)) = 10000"
    and "\<not> wifi_connected (final (app_main_boot e))"
proof -
  from assms have z: "wifi_event_group (wifi_init (link_events e) (before_wifi e)) = 0"
    by (simp add: boot_fields init_fields_ok)
  from wifi_init_timeout [OF z] assms(1)
  show "uptime_ms (final (app_main_boot e)) = 10000"
    by (simp add: boot_fields init_fields_ok before_wifi_fields)
  have "\<not> wifi_connected (before_wifi e)" by (simp add: before_wifi_fields)
  from wifi_init_not_connected [OF this z] assms(1)
  show "\<not> wifi_connected (final (app_main_boot e))"
    by (simp add: boot_fields init_fields_ok)
qed

lemma degraded_times_out: "wifi_event_group (final (app_main_boot env_degraded)) = 0"
  by (simp add: boot_fields init_fields_ok wifi_init_eq before_wifi_fields wifi_init_calls_def
      env_degraded_def env_ok_def wifi_event_handler_def WIFI_CONNECTED_BIT_def Let_def)

subsection \<open>The loops after the boot\<close>

lemma lvgl_task_iter_eq:
  "lvgl_task_iter s = emits [Lv ''lv_task_handler'', VTaskDelay 16] s"
  by (simp add: lvgl_task_iter_def vTaskDelay_def emit_def emits_def LVGL_TICK_MS_def)

lemma main_loop_iter_fields:
  "trace (main_loop_iter s) = trace s @ [VTaskDelay 1000, Esp_task_wdt_reset]"
  "uptime_ms (main_loop_iter s) = uptime_ms s + 1000"
  "wdt_timeout_ms (main_loop_iter s) = wdt_timeout_ms s"
  "wdt_fed_at (main_loop_iter s) =
     (case wdt_fed_at s of None \<Rightarrow> None | Some t \<Rightarrow> Some (uptime_ms s + 1000))"
  "wdt_expired (main_loop_iter s) = (wdt_expired s \<or> wdt_due s (uptime_ms s + 1000))"
  by (simp_all add: main_loop_iter_def vTaskDelay_def esp_task_wdt_reset_def wdt_due_def
      split: option.splits)

lemma lvgl_task_loop_trace:
  "trace (lvgl_task_loop n s) =
     trace s @ concat (replicate n [Lv ''lv_task_handler'', VTaskDelay 16])"
  by (induction n arbitrary: s) (simp_all add: lvgl_task_iter_eq)

lemma lvgl_task_no_wdt:
  "filter is_wdt_call (trace (lvgl_task n s)) = filter is_wdt_call (trace s)"
  by (simp add: lvgl_task_def lvgl_task_loop_trace filter_concat is_wdt_call_def)

lemma main_loop_trace:
  "trace (main_loop n s) = trace s @ concat (replicate n [VTaskDelay 1000, Esp_task_wdt_reset])"
  by (induction n arbitrary: s) (simp_all add: main_loop_iter_fields)

lemma main_loop_uptime: "uptime_ms (main_loop n s) = uptime_ms s + 1000 * n"
  by (induction n arbitrary: s) (simp_all add: main_loop_iter_fields)

lemma fed_perform: "fed s \<Longrightarrow> fed (perform x s)"
  by (cases x)
    (auto simp add: fed_def lvgl_task_iter_eq lv_tick_handler_def main_loop_iter_fields
      wdt_due_def)

lemma fed_run: "fed s \<Longrightarrow> fed (run_after_boot xs s)"
  by (induction xs arbitrary: s) (simp_all add: fed_perform)

lemma fed_boot: "lcd_init_ok e \<Longrightarrow> fed (final (app_main_boot e))"
  by (simp add: fed_def boot_final esp_task_wdt_init_def esp_task_wdt_add_def init_fields_ok)

lemma fed_stall: "fed s \<Longrightarrow> wdt_expired (advance d s) = (5000 \<le> d)"
  by (simp add: fed_def wdt_due_def)

lemma perform_count_reset:
  "count_list (trace (perform x s)) Esp_task_wdt_reset =
     count_list (trace s) Esp_task_wdt_reset + (if x = SupervisoryPeriod then 1 else 0)"
proof (cases x)
  case (LinkEvent ev)
  obtain w where "trace (wifi_event_handler ev s) = trace s @ w" "set w \<subseteq> handler_calls"
    using handler_trace by blast
  then show ?thesis using LinkEvent handler_calls_count [of w Esp_task_wdt_reset] by simp
qed (simp_all add: lvgl_task_iter_eq lv_tick_handler_def main_loop_iter_fields)

lemma run_count_reset:
  "count_list (trace (run_after_boot xs s)) Esp_task_wdt_reset =
     count_list (trace s) Esp_task_wdt_reset + count_list xs SupervisoryPeriod"
  by (induction xs arbitrary: s) (simp_all add: perform_count_reset)

lemma perform_count_render:
  "count_list (trace (perform x s)) (Lv ''lv_task_handler'') =
     count_list (trace s) (Lv ''lv_task_handler'') + (if x = RenderIteration then 1 else 0)"
proof (cases x)
  case (LinkEvent ev)
  obtain w where "trace (wifi_event_handler ev s) = trace s @ w" "set w \<subseteq> handler_calls"
    using handler_trace by blast
  then show ?thesis using LinkEvent handler_calls_count [of w "Lv ''lv_task_handler''"] by simp
qed (simp_all add: lvgl_task_iter_eq lv_tick_handler_def main_loop_iter_fields)

lemma run_count_render:
  "count_list (trace (run_after_boot xs s)) (Lv ''lv_task_handler'') =
     count_list (trace s) (Lv ''lv_task_handler'') + count_list xs RenderIteration"
  by (induction xs arbitrary: s) (simp_all add: perform_count_render)

lemma perform_uptime:
  "uptime_ms (perform x s) = uptime_ms s + (if x = SupervisoryPeriod then 1000 else 0)"
  by (cases x) (simp_all add: lvgl_task_iter_eq lv_tick_handler_def main_loop_iter_fields)

lemma run_uptime:
  "uptime_ms (run_after_boot xs s) = uptime_ms s + 1000 * count_list xs SupervisoryPeriod"
  by (induction xs arbitrary: s) (simp_all add: perform_uptime)

lemma run_supervisory: "run_after_boot (replicate n SupervisoryPeriod) s = main_loop n s"
  by (induction n arbitrary: s) simp_all

lemma ok_uptime: "uptime_ms (final (app_main_boot env_ok)) = 2420"
  by (simp add: boot_fields init_fields_ok wifi_init_eq before_wifi_fields wifi_init_calls_def
      env_ok_def wifi_event_handler_def WIFI_CONNECTED_BIT_def Let_def)

section \<open>Claims\<close>

text \<open>
  In all the statements \<open>app_main_boot e\<close> is the boot in the environment \<open>e\<close>, and
  \<open>final\<close> gives its last state, whose \<open>trace\<close> holds every library call of the
  boot in order. Every library call is taken to return; link events reach the handler
  while \<^verbatim>\<open>app_main\<close> is blocked in its wait and after the boot.
\<close>

subsection \<open>C1: corruption of the configuration store\<close>

text \<open>
  C1 states that after a corruption signal of the first initialisation the boot performs
  exactly one erase-and-reinitialise cycle, and that a failure of the second
  initialisation aborts the boot. The source performs the one cycle, but drops the
  status of the second \<^verbatim>\<open>nvs_flash_init\<close>: whatever it is, the boot goes on.

  C1 (as amended): if the first initialisation reports no-free-pages or
  version-mismatch, the store is erased once and initialised once more, so that the boot
  contains one erase and two initialisations and never a loop; the status of the second
  initialisation has no influence on the boot, which continues with the display.
\<close>

theorem nvs_corruption_one_erase_cycle:
  assumes "nvs_init_first e = ESP_ERR_NVS_NO_FREE_PAGES \<or>
           nvs_init_first e = ESP_ERR_NVS_NEW_VERSION_FOUND"
  shows "trace (nvs_stage e s) = trace s @ [Nvs_flash_init, Nvs_flash_erase, Nvs_flash_init] \<and>
         count_list (trace (final (app_main_boot e))) Nvs_flash_erase = 1 \<and>
         count_list (trace (final (app_main_boot e))) Nvs_flash_init = 2 \<and>
         app_main_boot (e\<lparr>nvs_init_second := r\<rparr>) = app_main_boot e \<and>
         count_list (trace (final (app_main_boot e))) Lcd_init = 1"
  using assms by (simp add: nvs_stage_eq count_erase count_nvs_init boot_ignores_second_nvs
      count_lcd_init)

theorem nvs_corruption_one_erase_cycle_witness:
  "nvs_init_first env_nvs_twice = ESP_ERR_NVS_NO_FREE_PAGES \<and>
   trace (nvs_stage env_nvs_twice init_sys) = [Nvs_flash_init, Nvs_flash_erase, Nvs_flash_init] \<and>
   count_list (trace (final (app_main_boot env_nvs_twice))) Nvs_flash_erase = 1 \<and>
   count_list (trace (final (app_main_boot env_nvs_twice))) Nvs_flash_init = 2 \<and>
   app_main_boot (env_nvs_twice\<lparr>nvs_init_second := ESP_OK\<rparr>) = app_main_boot env_nvs_twice \<and>
   count_list (trace (final (app_main_boot env_nvs_twice))) Lcd_init = 1"
proof -
  have h: "nvs_init_first env_nvs_twice = ESP_ERR_NVS_NO_FREE_PAGES"
    by (simp add: env_nvs_twice_def)
  then have "nvs_init_first env_nvs_twice = ESP_ERR_NVS_NO_FREE_PAGES \<or>
      nvs_init_first env_nvs_twice = ESP_ERR_NVS_NEW_VERSION_FOUND" by simp
  from nvs_corruption_one_erase_cycle [OF this, of init_sys ESP_OK] h
  show ?thesis by (simp add: init_sys_def)
qed

text \<open>
  The claim as stated fails: with a corruption signal from both initialisations the boot
  is not aborted, it runs every later stage.
\<close>

theorem second_nvs_failure_continues:
  "nvs_init_first env_nvs_twice = ESP_ERR_NVS_NO_FREE_PAGES \<and>
   nvs_init_second env_nvs_twice = ESP_ERR_NVS_NO_FREE_PAGES \<and>
   booted (app_main_boot env_nvs_twice) \<and>
   stages (trace (final (app_main_boot env_nvs_twice))) =
     [ConfigStore, Display, Storage, Connectivity, Pairing, TimeSync, UIReady]"
  by (simp add: boot_stages env_nvs_twice_def env_ok_def)

subsection \<open>C2: the UI is reached exactly when the display initialises\<close>

text \<open>
  C2: the boot reaches the UI stage if and only if the display initialisation succeeded.
  When it fails, the reset is requested exactly once, it is the last call of the boot,
  and the UI engine has received no call.
\<close>

theorem ui_ready_iff_display_ok:
  "booted (app_main_boot e) = lcd_init_ok e \<and>
   (UIReady \<in> set (stages (trace (final (app_main_boot e))))) = lcd_init_ok e \<and>
   count_list (trace (final (app_main_boot e))) Esp_restart = (if lcd_init_ok e then 0 else 1) \<and>
   (\<not> lcd_init_ok e \<longrightarrow>
      filter is_ui_call (trace (final (app_main_boot e))) = [] \<and>
      last (trace (final (app_main_boot e))) = Esp_restart)"
proof -
  have a: "(UIReady \<in> set (stages (trace (final (app_main_boot e))))) = lcd_init_ok e"
    by (simp add: boot_stages)
  have b: "\<not> lcd_init_ok e \<Longrightarrow> filter is_ui_call (trace (final (app_main_boot e))) = []"
    by (simp add: boot_trace boot_trace_fail is_ui_call_def nvs_calls_def)
  have c: "\<not> lcd_init_ok e \<Longrightarrow> last (trace (final (app_main_boot e))) = Esp_restart"
    by (simp add: boot_trace boot_trace_fail)
  from a b c show ?thesis by (simp add: count_restart)
qed

theorem ui_ready_iff_display_ok_witness:
  "\<not> lcd_init_ok env_display_fail \<and>
   \<not> booted (app_main_boot env_display_fail) \<and>
   UIReady \<notin> set (stages (trace (final (app_main_boot env_display_fail)))) \<and>
   count_list (trace (final (app_main_boot env_display_fail))) Esp_restart = 1 \<and>
   filter is_ui_call (trace (final (app_main_boot env_display_fail))) = [] \<and>
   last (trace (final (app_main_boot env_display_fail))) = Esp_restart"
proof -
  have h: "\<not> lcd_init_ok env_display_fail" by (simp add: env_display_fail_def)
  with ui_ready_iff_display_ok [of env_display_fail] show ?thesis by simp
qed

subsection \<open>C3: an address event while disconnected\<close>

text \<open>
  C3 states that \<^verbatim>\<open>IP_EVENT_STA_GOT_IP\<close> is ignored in the disconnected state. The
  handler keeps no state besides the flag and does not read the flag: its third branch is
  taken on the event alone.

  C3 (as amended): in every state an address event sets the connected flag, sets the
  bit the boot waits for and issues no connect call; the transition to connected fires
  from the disconnected state as it does from any other.
\<close>

theorem ip_event_handled_in_every_state:
  "wifi_connected (wifi_event_handler IP_EVENT_STA_GOT_IP s) = True \<and>
   wifi_event_group (wifi_event_handler IP_EVENT_STA_GOT_IP s) =
     wifi_event_group s OR WIFI_CONNECTED_BIT \<and>
   trace (wifi_event_handler IP_EVENT_STA_GOT_IP s) =
     trace s @ [XEventGroupSetBits WIFI_CONNECTED_BIT, LogI ''WiFi IP OK'']"
  by (simp add: wifi_event_handler_def)

text \<open>
  The claim as stated fails in the initial state, where the flag is false, the bit is
  clear and no connect call has been made: the event sets the flag and the bit.
\<close>

theorem ip_event_while_disconnected_not_ignored:
  "wifi_connected init_sys = False \<and> wifi_event_group init_sys = 0 \<and>
   count_list (trace init_sys) Esp_wifi_connect = 0 \<and>
   wifi_connected (wifi_event_handler IP_EVENT_STA_GOT_IP init_sys) = True \<and>
   wifi_event_group (wifi_event_handler IP_EVENT_STA_GOT_IP init_sys) = 1"
  by (simp add: wifi_event_handler_def init_sys_def WIFI_CONNECTED_BIT_def)

subsection \<open>C4: one reconnect per disconnect\<close>

text \<open>
  C4: in every state, hence while connecting or connected, a disconnect event clears the
  connected flag and issues exactly one connect call; a sequence of \<open>n\<close> such events
  issues \<open>n\<close> connect calls, for every \<open>n\<close> (no cap), and passes no time (no backoff).
\<close>

theorem disconnect_reconnects_once_per_event:
  "wifi_event_handler WIFI_EVENT_STA_DISCONNECTED s =
     s\<lparr>wifi_connected := False,
       trace := trace s @ [Esp_wifi_connect, LogW ''WiFi Disconnect - Retry'']\<rparr> \<and>
   count_list (trace (deliver (replicate n WIFI_EVENT_STA_DISCONNECTED) s)) Esp_wifi_connect =
     count_list (trace s) Esp_wifi_connect + n \<and>
   wifi_connected (deliver (replicate (Suc n) WIFI_EVENT_STA_DISCONNECTED) s) = False \<and>
   uptime_ms (deliver (replicate n WIFI_EVENT_STA_DISCONNECTED) s) = uptime_ms s"
  using handler_disconnected [of s] deliver_disconnected_count [of n s]
    deliver_disconnected_flag [of "Suc n" s] deliver_disconnected_time [of n s]
  by simp

subsection \<open>C5: the short-range radio\<close>

text \<open>
  C5 states that a failed enable leaves the pairing flag false. \<^verbatim>\<open>bt_init\<close> drops the
  four statuses and sets \<open>bt_enabled\<close> after the calls.

  C5 (as amended): a failure of the short-range-radio enable is not fatal, the boot is
  the same whatever the four calls return; \<open>bt_enabled\<close> is true after \<^verbatim>\<open>bt_init\<close>
  in every case.
\<close>

theorem bt_enabled_set_regardless:
  "bt_enabled (bt_init r s) = True \<and>
   trace (bt_init r s) =
     trace s @ [LogI ''Init BT'', Esp_bt_controller_init, Esp_bt_controller_enable,
                Esp_bluedroid_init, Esp_bluedroid_enable] \<and>
   bt_init r s = bt_init r' s \<and>
   app_main_boot (e\<lparr>bt_status := r\<rparr>) = app_main_boot e"
  by (simp add: bt_init_eq boot_ignores_bt)

text \<open>
  The claim as stated fails when the controller enable and the stack enable both fail:
  the boot completes with the flag true.
\<close>

theorem bt_enable_failure_sets_flag:
  "controller_enable_result (bt_status env_bt_fail) = ESP_FAIL \<and>
   bluedroid_enable_result (bt_status env_bt_fail) = ESP_FAIL \<and>
   booted (app_main_boot env_bt_fail) \<and>
   bt_enabled (final (app_main_boot env_bt_fail)) = True"
  by (simp add: boot_fields init_fields_ok env_bt_fail_def env_ok_def)

subsection \<open>C6: the order of the stages\<close>

text \<open>
  C6: the stages are entered in the order ConfigStore, Display, Storage, Connectivity,
  Pairing, TimeSync (and then the UI); none is entered twice; a reset is requested only
  when the display initialisation fails, the boot then ends with the request, Display
  being the stage entered last.
\<close>

theorem boot_stage_order:
  "stages (trace (final (app_main_boot e))) =
     (if lcd_init_ok e
      then [ConfigStore, Display, Storage, Connectivity, Pairing, TimeSync, UIReady]
      else [ConfigStore, Display]) \<and>
   distinct (stages (trace (final (app_main_boot e)))) \<and>
   count_list (trace (final (app_main_boot e))) Esp_restart = (if lcd_init_ok e then 0 else 1) \<and>
   (\<not> lcd_init_ok e \<longrightarrow>
      last (trace (final (app_main_boot e))) = Esp_restart \<and>
      last (stages (trace (final (app_main_boot e)))) = Display)"
proof -
  have c: "\<not> lcd_init_ok e \<Longrightarrow> last (trace (final (app_main_boot e))) = Esp_restart"
    by (simp add: boot_trace boot_trace_fail)
  then show ?thesis by (simp add: boot_stages count_restart)
qed

theorem boot_stage_order_witness:
  "\<not> lcd_init_ok env_display_fail \<and>
   stages (trace (final (app_main_boot env_display_fail))) = [ConfigStore, Display] \<and>
   count_list (trace (final (app_main_boot env_display_fail))) Esp_restart = 1 \<and>
   last (trace (final (app_main_boot env_display_fail))) = Esp_restart \<and>
   last (stages (trace (final (app_main_boot env_display_fail)))) = Display \<and>
   lcd_init_ok env_ok \<and>
   stages (trace (final (app_main_boot env_ok))) =
     [ConfigStore, Display, Storage, Connectivity, Pairing, TimeSync, UIReady] \<and>
   count_list (trace (final (app_main_boot env_ok))) Esp_restart = 0"
proof -
  have h: "\<not> lcd_init_ok env_display_fail" "lcd_init_ok env_ok"
    by (simp_all add: env_display_fail_def env_ok_def)
  with boot_stage_order [of env_display_fail] boot_stage_order [of env_ok]
  show ?thesis by simp
qed

subsection \<open>C7: the bounded wait for the first connection\<close>

text \<open>
  C7: the boot blocks in one wait of 10000 ms and in nothing else, so it has passed at
  most 10000 ms when it hands over. If the wait expires (the bit is still clear), the
  boot completes all the same: the connected flag is false, the expiry is logged once,
  no reset is requested, the stages after Connectivity run, and every later disconnect
  event still issues a connect call.
\<close>

theorem connectivity_wait_bounded:
  "uptime_ms (final (app_main_boot e)) \<le> 10000 \<and>
   filter is_wait_call (trace (final (app_main_boot e))) =
     (if lcd_init_ok e then [XEventGroupWaitBits WIFI_CONNECTED_BIT 10000] else []) \<and>
   (lcd_init_ok e \<and> wifi_event_group (final (app_main_boot e)) = 0 \<longrightarrow>
      booted (app_main_boot e) \<and>
      \<not> wifi_connected (final (app_main_boot e)) \<and>
      uptime_ms (final (app_main_boot e)) = 10000 \<and>
      count_list (trace (final (app_main_boot e)))
        (LogE ''WiFi Timeout - Check cle/UI input'') = 1 \<and>
      count_list (trace (final (app_main_boot e))) Esp_restart = 0 \<and>
      stages (trace (final (app_main_boot e))) =
        [ConfigStore, Display, Storage, Connectivity, Pairing, TimeSync, UIReady] \<and>
      count_list (trace (deliver (replicate n WIFI_EVENT_STA_DISCONNECTED)
          (final (app_main_boot e)))) Esp_wifi_connect =
        count_list (trace (final (app_main_boot e))) Esp_wifi_connect + n)"
  using boot_uptime [of e] boot_timeout [of e]
  by (simp add: filter_wait_calls count_timeout_log count_restart boot_stages
      deliver_disconnected_count)

theorem connectivity_wait_bounded_witness:
  "lcd_init_ok env_degraded \<and> wifi_event_group (final (app_main_boot env_degraded)) = 0 \<and>
   booted (app_main_boot env_degraded) \<and>
   \<not> wifi_connected (final (app_main_boot env_degraded)) \<and>
   uptime_ms (final (app_main_boot env_degraded)) = 10000 \<and>
   count_list (trace (final (app_main_boot env_degraded)))
     (LogE ''WiFi Timeout - Check cle/UI input'') = 1 \<and>
   count_list (trace (final (app_main_boot env_degraded))) Esp_restart = 0 \<and>
   stages (trace (final (app_main_boot env_degraded))) =
     [ConfigStore, Display, Storage, Connectivity, Pairing, TimeSync, UIReady] \<and>
   count_list (trace (deliver (replicate 3 WIFI_EVENT_STA_DISCONNECTED)
       (final (app_main_boot env_degraded)))) Esp_wifi_connect =
     count_list (trace (final (app_main_boot env_degraded))) Esp_wifi_connect + 3"
proof -
  have h: "lcd_init_ok env_degraded" by (simp add: env_degraded_def env_ok_def)
  from connectivity_wait_bounded [of env_degraded 3] h degraded_times_out
  show ?thesis by simp
qed

subsection \<open>C8: a failed mount\<close>

text \<open>
  C8: a failed mount changes nothing but the trace (the program keeps no storage flag, so
  none becomes true): the mount is called once, the failure is logged, the next calls are
  those of \<^verbatim>\<open>wifi_init\<close>, no reset is requested and the boot completes.
\<close>

theorem storage_failure_degrades:
  "(sd_mount_result e \<noteq> ESP_OK \<longrightarrow>
      sdcard_init (sd_mount_result e) s =
        s\<lparr>trace := trace s @ [LogI ''Init SD'', Esp_vfs_fat_sdmmc_mount,
                               LogE ''SD Fail %d - Fallback to Flash'']\<rparr>) \<and>
   (lcd_init_ok e \<and> sd_mount_result e \<noteq> ESP_OK \<longrightarrow>
      booted (app_main_boot e) \<and>
      count_list (trace (final (app_main_boot e))) Esp_vfs_fat_sdmmc_mount = 1 \<and>
      count_list (trace (final (app_main_boot e))) Esp_restart = 0 \<and>
      stages (trace (final (app_main_boot e))) =
        [ConfigStore, Display, Storage, Connectivity, Pairing, TimeSync, UIReady] \<and>
      last (trace (before_wifi e)) = LogE ''SD Fail %d - Fallback to Flash'' \<and>
      (\<exists>post. trace (final (app_main_boot e)) =
         trace (before_wifi e) @ wifi_init_calls @ post))"
proof -
  have a: "sd_mount_result e \<noteq> ESP_OK \<Longrightarrow>
      sdcard_init (sd_mount_result e) s =
        s\<lparr>trace := trace s @ [LogI ''Init SD'', Esp_vfs_fat_sdmmc_mount,
                               LogE ''SD Fail %d - Fallback to Flash'']\<rparr>"
    by (simp add: sdcard_init_eq emits_def)
  have b: "sd_mount_result e \<noteq> ESP_OK \<Longrightarrow>
      last (trace (before_wifi e)) = LogE ''SD Fail %d - Fallback to Flash''"
    by (simp add: before_wifi_fields)
  have c: "\<exists>post. trace (final (app_main_boot e)) =
         trace (before_wifi e) @ wifi_init_calls @ post" if "lcd_init_ok e"
  proof -
    from boot_trace_ok [OF that] obtain w where
      "trace (final (app_main_init e)) =
       trace (before_wifi e) @ wifi_init_calls @ w @
       (if wifi_event_group (final (app_main_init e)) = 0
        then [LogE ''WiFi Timeout - Check cle/UI input''] else []) @
       after_wifi_calls" by blast
    then show ?thesis unfolding boot_trace by simp
  qed
  from a b c show ?thesis by (simp add: count_mount count_restart boot_stages)
qed

theorem storage_failure_degrades_witness:
  "lcd_init_ok env_degraded \<and> sd_mount_result env_degraded \<noteq> ESP_OK \<and>
   sdcard_init (sd_mount_result env_degraded) init_sys =
     init_sys\<lparr>trace := [LogI ''Init SD'', Esp_vfs_fat_sdmmc_mount,
                          LogE ''SD Fail %d - Fallback to Flash'']\<rparr> \<and>
   booted (app_main_boot env_degraded) \<and>
   count_list (trace (final (app_main_boot env_degraded))) Esp_vfs_fat_sdmmc_mount = 1 \<and>
   count_list (trace (final (app_main_boot env_degraded))) Esp_restart = 0 \<and>
   stages (trace (final (app_main_boot env_degraded))) =
     [ConfigStore, Display, Storage, Connectivity, Pairing, TimeSync, UIReady] \<and>
   last (trace (before_wifi env_degraded)) = LogE ''SD Fail %d - Fallback to Flash'' \<and>
   (\<exists>post. trace (final (app_main_boot env_degraded)) =
      trace (before_wifi env_degraded) @ wifi_init_calls @ post)"
proof -
  have h: "lcd_init_ok env_degraded" "sd_mount_result env_degraded \<noteq> ESP_OK"
    by (simp_all add: env_degraded_def env_ok_def)
  from storage_failure_degrades [of env_degraded init_sys] h
  show ?thesis by (simp add: init_sys_def)
qed

subsection \<open>C9: who resets the watchdog\<close>

text \<open>
  C9 states that the watchdog is reset only by the loop of \<^verbatim>\<open>app_main\<close>, once per
  second, and concludes that a stall of either task shows as a missed reset. The first
  half holds. The conclusion holds for the loop of \<^verbatim>\<open>app_main\<close> only: the render
  task is not subscribed to the watchdog and the loop resets it without looking at the
  render task.

  C9 (as amended): in every schedule after the boot the number of watchdog resets is the
  number of completed periods of the supervisory loop, one per 1000 ms; the render task
  makes no watchdog call; the watchdog does not expire as long as the supervisory loop
  completes its periods, whatever the other contexts do or fail to do, and it has expired
  once the supervisory loop has made no progress for 5000 ms. A stall of the render task
  is therefore noticed only if it keeps the supervisory loop from running.
\<close>

theorem watchdog_fed_by_supervisory_loop_only:
  "count_list (trace (run_after_boot xs s)) Esp_task_wdt_reset =
     count_list (trace s) Esp_task_wdt_reset + count_list xs SupervisoryPeriod \<and>
   filter is_wdt_call (trace (lvgl_task n s)) = filter is_wdt_call (trace s) \<and>
   trace (main_loop n s) =
     trace s @ concat (replicate n [VTaskDelay 1000, Esp_task_wdt_reset]) \<and>
   uptime_ms (run_after_boot xs s) = uptime_ms s + 1000 * count_list xs SupervisoryPeriod \<and>
   (lcd_init_ok e \<longrightarrow>
      \<not> wdt_expired (run_after_boot xs (final (app_main_boot e))) \<and>
      wdt_expired (advance d (run_after_boot xs (final (app_main_boot e)))) = (5000 \<le> d))"
  using fed_run [OF fed_boot, of e xs] fed_stall [of "run_after_boot xs (final (app_main_boot e))" d]
  by (simp add: run_count_reset lvgl_task_no_wdt main_loop_trace run_uptime fed_def)

theorem watchdog_fed_by_supervisory_loop_only_witness:
  "lcd_init_ok env_ok \<and>
   count_list (trace (run_after_boot schedule_mixed (final (app_main_boot env_ok))))
     Esp_task_wdt_reset = 2 \<and>
   \<not> wdt_expired (run_after_boot schedule_mixed (final (app_main_boot env_ok))) \<and>
   \<not> wdt_expired (advance 4999 (run_after_boot schedule_mixed (final (app_main_boot env_ok)))) \<and>
   wdt_expired (advance 5000 (run_after_boot schedule_mixed (final (app_main_boot env_ok))))"
proof -
  have h: "lcd_init_ok env_ok" by (simp add: env_ok_def)
  have z: "count_list (trace (final (app_main_boot env_ok))) Esp_task_wdt_reset = 0"
    by (simp add: boot_trace init_count before_wifi_fields nvs_calls_def wifi_init_calls_def
        after_wifi_calls_def create_ui_calls_def)
  have k: "count_list schedule_mixed SupervisoryPeriod = 2"
    by (simp add: schedule_mixed_def)
  from watchdog_fed_by_supervisory_loop_only
         [of schedule_mixed "final (app_main_boot env_ok)" 0 env_ok 4999]
       watchdog_fed_by_supervisory_loop_only
         [of schedule_mixed "final (app_main_boot env_ok)" 0 env_ok 5000]
       h z k
  show ?thesis by (simp del: advance_fields)
qed

text \<open>
  The claim as stated fails for the render task: in ten seconds in which the render task
  completes no iteration, the supervisory loop resets the watchdog ten times and the
  watchdog does not expire.
\<close>

theorem render_stall_not_detected:
  "count_list (replicate 10 SupervisoryPeriod) RenderIteration = 0 \<and>
   count_list (trace (run_after_boot (replicate 10 SupervisoryPeriod)
      (final (app_main_boot env_ok)))) (Lv ''lv_task_handler'') = 0 \<and>
   uptime_ms (final (app_main_boot env_ok)) = 2420 \<and>
   uptime_ms (run_after_boot (replicate 10 SupervisoryPeriod)
      (final (app_main_boot env_ok))) = 12420 \<and>
   count_list (trace (run_after_boot (replicate 10 SupervisoryPeriod)
      (final (app_main_boot env_ok)))) Esp_task_wdt_reset = 10 \<and>
   \<not> wdt_expired (run_after_boot (replicate 10 SupervisoryPeriod)
      (final (app_main_boot env_ok)))"
proof -
  have h: "lcd_init_ok env_ok" by (simp add: env_ok_def)
  have z: "count_list (trace (final (app_main_boot env_ok))) Esp_task_wdt_reset = 0"
    "count_list (trace (final (app_main_boot env_ok))) (Lv ''lv_task_handler'') = 0"
    by (simp_all add: boot_trace init_count before_wifi_fields nvs_calls_def wifi_init_calls_def
        after_wifi_calls_def create_ui_calls_def)
  have r: "count_list (replicate 10 SupervisoryPeriod) RenderIteration = 0"
    "count_list (replicate 10 SupervisoryPeriod) SupervisoryPeriod = 10"
    by (simp_all add: count_list_0_iff, simp add: eval_nat_numeral)
  have e: "\<not> wdt_expired (run_after_boot (replicate 10 SupervisoryPeriod)
      (final (app_main_boot env_ok)))"
    using fed_run [OF fed_boot [OF h]] by (simp add: fed_def)
  from r z e show ?thesis by (simp add: run_count_render run_count_reset run_uptime ok_uptime)
qed

subsection \<open>C10: the watchdog is armed last\<close>

text \<open>
  C10: up to and including the creation of the render task the boot makes no watchdog
  call, the watchdog is not armed, and no time that passes makes it expire, although the
  boot may have been blocked for 10000 ms; the two watchdog calls are the last two calls
  of the boot, after every stage and after the creation of the render task.
\<close>

theorem watchdog_armed_after_boot:
  "filter is_wdt_call (trace (final (app_main_init e))) = [] \<and>
   wdt_timeout_ms (final (app_main_init e)) = None \<and>
   wdt_fed_at (final (app_main_init e)) = None \<and>
   \<not> wdt_expired (advance d (final (app_main_init e))) \<and>
   uptime_ms (final (app_main_init e)) \<le> 10000 \<and>
   trace (final (app_main_boot e)) =
     trace (final (app_main_init e)) @
     (if lcd_init_ok e then [Esp_task_wdt_init 5, Esp_task_wdt_add] else []) \<and>
   (lcd_init_ok e \<longrightarrow>
      stages (trace (final (app_main_init e))) =
        [ConfigStore, Display, Storage, Connectivity, Pairing, TimeSync, UIReady] \<and>
      last (trace (final (app_main_init e))) = XTaskCreate ''lvgl_task'' 4 \<and>
      wdt_timeout_ms (final (app_main_boot e)) = Some 5000 \<and>
      wdt_fed_at (final (app_main_boot e)) = Some (uptime_ms (final (app_main_boot e))))"
proof -
  have a: "wdt_timeout_ms (final (app_main_init e)) = None"
    "wdt_fed_at (final (app_main_init e)) = None"
    "\<not> wdt_expired (final (app_main_init e))"
    by (cases "lcd_init_ok e"; simp add: init_fields_ok init_fields_fail)+
  have b: "uptime_ms (final (app_main_init e)) \<le> 10000"
    using boot_uptime [of e] by (simp add: boot_fields)
  have c: "last (trace (final (app_main_init e))) = XTaskCreate ''lvgl_task'' 4"
    if "lcd_init_ok e"
    using boot_trace_ok [OF that] by (auto simp add: after_wifi_calls_def)
  have d: "fed (final (app_main_boot e))" if "lcd_init_ok e"
    using fed_boot [OF that] .
  from a b c d show ?thesis
    by (simp add: filter_wdt_calls_init boot_trace init_stages fed_def)
qed

theorem watchdog_armed_after_boot_witness:
  "lcd_init_ok env_degraded \<and>
   filter is_wdt_call (trace (final (app_main_init env_degraded))) = [] \<and>
   uptime_ms (final (app_main_init env_degraded)) = 10000 \<and>
   \<not> wdt_expired (advance 60000 (final (app_main_init env_degraded))) \<and>
   stages (trace (final (app_main_init env_degraded))) =
     [ConfigStore, Display, Storage, Connectivity, Pairing, TimeSync, UIReady] \<and>
   last (trace (final (app_main_init env_degraded))) = XTaskCreate ''lvgl_task'' 4 \<and>
   trace (final (app_main_boot env_degraded)) =
     trace (final (app_main_init env_degraded)) @ [Esp_task_wdt_init 5, Esp_task_wdt_add] \<and>
   wdt_timeout_ms (final (app_main_boot env_degraded)) = Some 5000 \<and>
   wdt_fed_at (final (app_main_boot env_degraded)) = Some 10000"
proof -
  have h: "lcd_init_ok env_degraded" by (simp add: env_degraded_def env_ok_def)
  have u: "uptime_ms (final (app_main_boot env_degraded)) = 10000"
    using boot_timeout(1) [OF h degraded_times_out] .
  then have u': "uptime_ms (final (app_main_init env_degraded)) = 10000"
    by (simp add: boot_fields)
  from watchdog_armed_after_boot [of env_degraded 60000] h u u'
  show ?thesis by simp
qed

end
